theory Spec2Isabelle
  imports Complex_Main
begin

section \<open>Python values\<close>

text \<open>
  The scoring pipeline of the repository (\<^verbatim>\<open>app/scoring.py\<close> and
  \<^verbatim>\<open>app/text_features.py\<close>) is embedded function by function.

  Numbers. A Python \<^verbatim>\<open>int\<close> is an \<^typ>\<open>int\<close>. A Python \<^verbatim>\<open>float\<close> is modelled by
  the real number it denotes, and its arithmetic by the arithmetic of the reals: the
  rounding error of an operation (a few units in the last place), NaN and the infinities
  are outside the model. The range of a double is part of the model where Python raises
  on leaving it: in the conversion of an \<^verbatim>\<open>int\<close> to a \<^verbatim>\<open>float\<close> and in the true division
  of two \<^verbatim>\<open>int\<close>s. An optional value (\<^verbatim>\<open>Optional[float]\<close>) is an \<^typ>\<open>real option\<close>.

  Exceptions. A raise is a value: a function whose body contains an operation that can
  raise returns \<open>py_exception + 'a\<close>, with \<open>Inl\<close> for the exception. \<open>Exception m\<close>
  is any other instance of Python's class \<^verbatim>\<open>Exception\<close>, with its message.
\<close>

datatype py_exception = ZeroDivisionError | OverflowError | UnicodeEncodeError | Exception string

definition py_bind :: "py_exception + 'a \<Rightarrow> ('a \<Rightarrow> py_exception + 'b) \<Rightarrow> py_exception + 'b" where
  "py_bind m f = (case m of Inl e \<Rightarrow> Inl e | Inr v \<Rightarrow> f v)"

text \<open>
  The largest double is \<open>2 ^ 1024 - 2 ^ 971\<close>. A number whose magnitude is at least
  halfway from there to \<open>2 ^ 1024\<close> rounds to a value that is no double: Python raises
  \<^verbatim>\<open>OverflowError\<close> when an \<^verbatim>\<open>int\<close> or a quotient of two \<^verbatim>\<open>int\<close>s is such a number.
\<close>

definition FLOAT_OVERFLOW :: real where
  "FLOAT_OVERFLOW = 2 ^ 1024 - 2 ^ 970"

definition in_double_range :: "real \<Rightarrow> bool" where
  "in_double_range x = (\<bar>x\<bar> < FLOAT_OVERFLOW)"

text \<open>The conversion of an \<^verbatim>\<open>int\<close> operand to \<^verbatim>\<open>float\<close>, as in \<^verbatim>\<open>n / x\<close> with a float \<^verbatim>\<open>x\<close>.\<close>

definition int_to_float :: "int \<Rightarrow> py_exception + real" where
  "int_to_float n =
     (if in_double_range (real_of_int n) then Inr (real_of_int n) else Inl OverflowError)"

text \<open>\<^verbatim>\<open>x / y\<close> on two floats, and on two ints (true division gives a float).\<close>

definition float_truediv :: "real \<Rightarrow> real \<Rightarrow> py_exception + real" where
  "float_truediv x y = (if y = 0 then Inl ZeroDivisionError else Inr (x / y))"

definition int_truediv :: "int \<Rightarrow> int \<Rightarrow> py_exception + real" where
  "int_truediv a b =
     (if b = 0 then Inl ZeroDivisionError
      else if in_double_range (real_of_int a / real_of_int b)
      then Inr (real_of_int a / real_of_int b)
      else Inl OverflowError)"

text \<open>
  \<^verbatim>\<open>round(x, ndigits)\<close>: Python rounds the double \<^verbatim>\<open>x\<close> to the nearest multiple of
  \<open>10 ^ -ndigits\<close> and breaks a tie towards the even neighbour. Where the real number
  computed in the model lies exactly halfway between two multiples, the double computed by
  the program can lie on either side of it, and the program's result is then either
  neighbour; no statement below depends on the direction taken at a tie.
\<close>

definition round_half_even :: "real \<Rightarrow> int" where
  "round_half_even x =
     (let f = \<lfloor>x\<rfloor>; d = x - real_of_int f
      in if d < 1 / 2 then f
         else if 1 / 2 < d then f + 1
         else if even f then f else f + 1)"

definition py_round :: "real \<Rightarrow> nat \<Rightarrow> real" where
  "py_round x ndigits = real_of_int (round_half_even (x * 10 ^ ndigits)) / 10 ^ ndigits"


section \<open>Scoring: \<^verbatim>\<open>app/scoring.py\<close>\<close>

definition MAX_GRAMMAR_ERRORS_PER_100 :: real where "MAX_GRAMMAR_ERRORS_PER_100 = 12"
definition MAX_FILLERS_PER_100 :: real where "MAX_FILLERS_PER_100 = 8"
definition MAX_WER :: real where "MAX_WER = 35 / 100"
definition IDEAL_WPM_MIN :: real where "IDEAL_WPM_MIN = 110"
definition IDEAL_WPM_MAX :: real where "IDEAL_WPM_MAX = 170"
definition VERY_SLOW_WPM :: real where "VERY_SLOW_WPM = 60"
definition VERY_FAST_WPM :: real where "VERY_FAST_WPM = 220"
definition WEIGHT_GRAMMAR :: real where "WEIGHT_GRAMMAR = 35 / 100"
definition WEIGHT_FILLERS :: real where "WEIGHT_FILLERS = 25 / 100"
definition WEIGHT_WER :: real where "WEIGHT_WER = 20 / 100"
definition WEIGHT_FLUENCY :: real where "WEIGHT_FLUENCY = 20 / 100"

text \<open>\<^verbatim>\<open>return max(0.0, min(1.0, x))\<close>\<close>

definition clamp_01 :: "real \<Rightarrow> real" where
  "clamp_01 x = max 0 (min 1 x)"

text \<open>
  \<^verbatim>\<open>
  if word_count <= 0: return 0.0
  ger = (error_count / word_count) * 100.0
  penalty = ger / MAX_GRAMMAR_ERRORS_PER_100
  return clamp_01(penalty)
  \<close>
\<close>

definition normalize_grammar_errors :: "int \<Rightarrow> int \<Rightarrow> py_exception + real" where
  "normalize_grammar_errors error_count word_count =
     (if word_count \<le> 0 then Inr 0
      else py_bind (int_truediv error_count word_count) (\<lambda>q.
           let ger = q * 100
           in py_bind (float_truediv ger MAX_GRAMMAR_ERRORS_PER_100) (\<lambda>penalty.
              Inr (clamp_01 penalty))))"

definition normalize_fillers :: "int \<Rightarrow> int \<Rightarrow> py_exception + real" where
  "normalize_fillers filler_cnt word_count =
     (if word_count \<le> 0 then Inr 0
      else py_bind (int_truediv filler_cnt word_count) (\<lambda>q.
           let filler_rate = q * 100
           in py_bind (float_truediv filler_rate MAX_FILLERS_PER_100) (\<lambda>penalty.
              Inr (clamp_01 penalty))))"

text \<open>
  \<^verbatim>\<open>
  if wer is None: return 0.0
  if wer < 0: return 0.0
  penalty = wer / MAX_WER
  return clamp_01(penalty)
  \<close>
\<close>

definition normalize_wer :: "real option \<Rightarrow> py_exception + real" where
  "normalize_wer wer_opt =
     (case wer_opt of
        None \<Rightarrow> Inr 0
      | Some wer \<Rightarrow>
          if wer < 0 then Inr 0
          else py_bind (float_truediv wer MAX_WER) (\<lambda>penalty. Inr (clamp_01 penalty)))"

text \<open>
  \<^verbatim>\<open>
  if wpm is None or wpm <= 0: return 0.0
  if IDEAL_WPM_MIN <= wpm <= IDEAL_WPM_MAX: return 0.0
  if wpm < IDEAL_WPM_MIN:
      distance = IDEAL_WPM_MIN - wpm
      max_distance = IDEAL_WPM_MIN - VERY_SLOW_WPM
      penalty = distance / max_distance
      return clamp_01(penalty)
  if wpm > IDEAL_WPM_MAX:
      distance = wpm - IDEAL_WPM_MAX
      max_distance = VERY_FAST_WPM - IDEAL_WPM_MAX
      penalty = distance / max_distance
      return clamp_01(penalty)
  return 0.0
  \<close>
\<close>

definition fluency_penalty :: "real option \<Rightarrow> py_exception + real" where
  "fluency_penalty wpm_opt =
     (case wpm_opt of
        None \<Rightarrow> Inr 0
      | Some wpm \<Rightarrow>
          if wpm \<le> 0 then Inr 0
          else if IDEAL_WPM_MIN \<le> wpm \<and> wpm \<le> IDEAL_WPM_MAX then Inr 0
          else if wpm < IDEAL_WPM_MIN then
            (let distance = IDEAL_WPM_MIN - wpm;
                 max_distance = IDEAL_WPM_MIN - VERY_SLOW_WPM
             in py_bind (float_truediv distance max_distance) (\<lambda>penalty.
                Inr (clamp_01 penalty)))
          else if wpm > IDEAL_WPM_MAX then
            (let distance = wpm - IDEAL_WPM_MAX;
                 max_distance = VERY_FAST_WPM - IDEAL_WPM_MAX
             in py_bind (float_truediv distance max_distance) (\<lambda>penalty.
                Inr (clamp_01 penalty)))
          else Inr 0)"

text \<open>
  \<^verbatim>\<open>
  total_penalty = (grammar_penalty * WEIGHT_GRAMMAR + filler_penalty * WEIGHT_FILLERS +
                   wer_penalty * WEIGHT_WER + fluency_pen * WEIGHT_FLUENCY)
  score = 100.0 - (total_penalty * 100.0)
  score = max(0.0, min(100.0, score))
  return round(score, 2)
  \<close>
  No operation of this body can raise, so the model is a plain function.
\<close>

definition calculate_final_score :: "real \<Rightarrow> real \<Rightarrow> real \<Rightarrow> real \<Rightarrow> real" where
  "calculate_final_score grammar_penalty filler_penalty wer_penalty fluency_pen =
     (let total_penalty =
            grammar_penalty * WEIGHT_GRAMMAR + filler_penalty * WEIGHT_FILLERS +
            wer_penalty * WEIGHT_WER + fluency_pen * WEIGHT_FLUENCY;
          score = 100 - total_penalty * 100;
          score = max 0 (min 100 score)
      in py_round score 2)"

text \<open>
  \<^verbatim>\<open>
  grammar_deduction = round(grammar_penalty * WEIGHT_GRAMMAR * 100, 1)
  filler_deduction = round(filler_penalty * WEIGHT_FILLERS * 100, 1)
  wer_deduction = round(wer_penalty * WEIGHT_WER * 100, 1)
  fluency_deduction = round(fluency_pen * WEIGHT_FLUENCY * 100, 1)
  explanation = (f"Score: {final}/100 | " f"Grammar: -{grammar_deduction} pts | "
                 f"Fillers: -{filler_deduction} pts | " f"WER: -{wer_deduction} pts | "
                 f"Fluency: -{fluency_deduction} pts")
  return explanation
  \<close>
  The text that an f-string prints for a float (\<^verbatim>\<open>str\<close> of the float) is the parameter
  \<open>float_str\<close>.
\<close>

definition generate_score_explanation ::
  "(real \<Rightarrow> string) \<Rightarrow> real \<Rightarrow> real \<Rightarrow> real \<Rightarrow> real \<Rightarrow> real \<Rightarrow> string" where
  "generate_score_explanation float_str grammar_penalty filler_penalty wer_penalty fluency_pen final =
     (let grammar_deduction = py_round (grammar_penalty * WEIGHT_GRAMMAR * 100) 1;
          filler_deduction = py_round (filler_penalty * WEIGHT_FILLERS * 100) 1;
          wer_deduction = py_round (wer_penalty * WEIGHT_WER * 100) 1;
          fluency_deduction = py_round (fluency_pen * WEIGHT_FLUENCY * 100) 1
      in ''Score: '' @ float_str final @ ''/100 | '' @
         ''Grammar: -'' @ float_str grammar_deduction @ '' pts | '' @
         ''Fillers: -'' @ float_str filler_deduction @ '' pts | '' @
         ''WER: -'' @ float_str wer_deduction @ '' pts | '' @
         ''Fluency: -'' @ float_str fluency_deduction @ '' pts'')"


section \<open>Speaking rate: \<^verbatim>\<open>words_per_minute\<close> of \<^verbatim>\<open>app/text_features.py\<close>\<close>

text \<open>
  \<^verbatim>\<open>
  if duration_sec <= 0: return None
  if word_count < 0: return None
  wpm = (word_count / duration_sec) * 60.0
  return round(wpm, 2)
  \<close>
  The division converts \<^verbatim>\<open>word_count\<close> to a float first.
\<close>

definition words_per_minute :: "int \<Rightarrow> real \<Rightarrow> py_exception + real option" where
  "words_per_minute word_count duration_sec =
     (if duration_sec \<le> 0 then Inr None
      else if word_count < 0 then Inr None
      else py_bind (int_to_float word_count) (\<lambda>words.
           py_bind (float_truediv words duration_sec) (\<lambda>q.
           let wpm = q * 60
           in Inr (Some (py_round wpm 2)))))"

section \<open>Text: characters, \<^verbatim>\<open>str\<close> methods and regular expressions\<close>

text \<open>
  A Python \<^verbatim>\<open>str\<close> is modelled as a \<^typ>\<open>string\<close> whose characters are the code points
  below 256. On these, \<^verbatim>\<open>str.isspace\<close> and the class \<^verbatim>\<open>\s\<close> of \<^verbatim>\<open>re\<close> are the same set,
  \<^verbatim>\<open>\w\<close> is the alphanumeric characters and the underscore, and \<^verbatim>\<open>str.lower\<close> maps
  character by character.
\<close>

definition py_isspace :: "char \<Rightarrow> bool" where
  "py_isspace c = (let n = (of_char c :: int) in (9 \<le> n \<and> n \<le> 13) \<or> (28 \<le> n \<and> n \<le> 32) \<or> n = 133 \<or> n = 160)"

definition py_lower_char :: "char \<Rightarrow> char" where
  "py_lower_char c =
     (let n = (of_char c :: int)
      in if (65 \<le> n \<and> n \<le> 90) \<or> (192 \<le> n \<and> n \<le> 222 \<and> n \<noteq> 215) then char_of (n + 32) else c)"

definition py_lower :: "string \<Rightarrow> string" where
  "py_lower s = map py_lower_char s"

definition is_word_char :: "char \<Rightarrow> bool" where
  "is_word_char c =
     (let n = (of_char c :: int)
      in (48 \<le> n \<and> n \<le> 57) \<or> (65 \<le> n \<and> n \<le> 90) \<or> n = 95 \<or> (97 \<le> n \<and> n \<le> 122) \<or>
         n = 170 \<or> n = 178 \<or> n = 179 \<or> n = 181 \<or> n = 185 \<or> n = 186 \<or>
         (188 \<le> n \<and> n \<le> 190) \<or> (192 \<le> n \<and> n \<le> 214) \<or> (216 \<le> n \<and> n \<le> 246) \<or>
         248 \<le> n)"

text \<open>\<^verbatim>\<open>s.strip()\<close>: leading and trailing whitespace removed.\<close>

definition py_strip :: "string \<Rightarrow> string" where
  "py_strip s = rev (dropWhile py_isspace (rev (dropWhile py_isspace s)))"

text \<open>
  \<^verbatim>\<open>re.sub(r'\s+', ' ', s)\<close>: scanning from the left, every maximal run of whitespace is
  replaced by one space.
\<close>

function sub_whitespace :: "string \<Rightarrow> string" where
  "sub_whitespace [] = []"
| "sub_whitespace (c # cs) =
     (if py_isspace c then CHR '' '' # sub_whitespace (dropWhile py_isspace cs)
      else c # sub_whitespace cs)"
  by pat_completeness auto
termination
  by (relation "measure length") (auto simp: length_dropWhile_le less_Suc_eq_le)

text \<open>
  \<^verbatim>\<open>re.sub(r'\s+([.,!?;:])', r'\1', s)\<close>. At a whitespace character the greedy \<^verbatim>\<open>\s+\<close>
  takes the whole run; the match succeeds when a punctuation mark follows the run, and is
  then replaced by that mark. Giving back part of the run cannot help, since the next
  character would be whitespace; so when no mark follows, the scan moves on by one.
\<close>

definition is_punct :: "char \<Rightarrow> bool" where
  "is_punct c = (c \<in> set ''.,!?;:'')"

function sub_space_before_punct :: "string \<Rightarrow> string" where
  "sub_space_before_punct [] = []"
| "sub_space_before_punct (c # cs) =
     (if py_isspace c then
        (case dropWhile py_isspace cs of
           [] \<Rightarrow> c # sub_space_before_punct cs
         | p # rest \<Rightarrow>
             if is_punct p then p # sub_space_before_punct rest
             else c # sub_space_before_punct cs)
      else c # sub_space_before_punct cs)"
  by pat_completeness auto
termination
proof (relation "measure length")
  fix c :: char and cs p rest
  assume "dropWhile py_isspace cs = p # rest"
  then have "Suc (length rest) = length (dropWhile py_isspace cs)" by simp
  also have "\<dots> \<le> length cs" by (rule length_dropWhile_le)
  finally show "(rest, c # cs) \<in> measure length" by simp
qed auto

text \<open>
  \<^verbatim>\<open>
  if not text: return ""
  text = re.sub(r'\s+', ' ', text)
  text = re.sub(r'\s+([.,!?;:])', r'\1', text)
  text = text.strip()
  return text
  \<close>
\<close>

definition normalize_transcript :: "string \<Rightarrow> string" where
  "normalize_transcript text =
     (if text = [] then []
      else py_strip (sub_space_before_punct (sub_whitespace text)))"


subsection \<open>The filler patterns\<close>

text \<open>
  The patterns of \<^verbatim>\<open>filler_count\<close> use three constructs: a literal character, a
  character repeated one or more times (\<^verbatim>\<open>c+\<close>, greedy) and the word boundary \<^verbatim>\<open>\b\<close>.
  A pattern is the list of its items. \<open>re_match\<close> is the backtracking matcher anchored
  at the current position: \<open>prev\<close> is the character before the position, the result is
  the matched text. A repetition first tries to take one more character and falls back
  to the rest of the pattern. With \<^verbatim>\<open>re.IGNORECASE\<close> a literal matches up to case.
\<close>

datatype re_item = Chr char | Plus char | WordB

definition lit :: "string \<Rightarrow> re_item list" where
  "lit s = map Chr s"

definition ci_eq :: "char \<Rightarrow> char \<Rightarrow> bool" where
  "ci_eq p c = (py_lower_char p = py_lower_char c)"

definition word_boundary :: "char option \<Rightarrow> string \<Rightarrow> bool" where
  "word_boundary prev s =
     ((case prev of None \<Rightarrow> False | Some a \<Rightarrow> is_word_char a) \<noteq>
      (case s of [] \<Rightarrow> False | b # _ \<Rightarrow> is_word_char b))"

fun re_match :: "re_item list \<Rightarrow> char option \<Rightarrow> string \<Rightarrow> string option" where
  "re_match [] prev s = Some []"
| "re_match (WordB # items) prev s =
     (if word_boundary prev s then re_match items prev s else None)"
| "re_match (Chr p # items) prev [] = None"
| "re_match (Chr p # items) prev (c # cs) =
     (if ci_eq p c then map_option (Cons c) (re_match items (Some c) cs) else None)"
| "re_match (Plus p # items) prev [] = None"
| "re_match (Plus p # items) prev (c # cs) =
     (if ci_eq p c then
        (case re_match (Plus p # items) (Some c) cs of
           Some m \<Rightarrow> Some (c # m)
         | None \<Rightarrow> map_option (Cons c) (re_match items (Some c) cs))
      else None)"

text \<open>
  \<^verbatim>\<open>re.findall(pattern, s)\<close> for a pattern without groups: the matched texts of the
  non-overlapping matches, found from left to right. \<open>skip\<close> counts the characters
  still covered by the last match. (The patterns below contain a literal, so a match is
  never empty.)
\<close>

fun findall_from :: "re_item list \<Rightarrow> nat \<Rightarrow> char option \<Rightarrow> string \<Rightarrow> string list" where
  "findall_from re skip prev [] = []"
| "findall_from re skip prev (c # cs) =
     (if 0 < skip then findall_from re (skip - 1) (Some c) cs
      else case re_match re prev (c # cs) of
             None \<Rightarrow> findall_from re 0 (Some c) cs
           | Some m \<Rightarrow> m # findall_from re (length m - 1) (Some c) cs)"

definition re_findall :: "re_item list \<Rightarrow> string \<Rightarrow> string list" where
  "re_findall re s = findall_from re 0 None s"

definition filler_patterns :: "re_item list list" where
  "filler_patterns =
     [ [WordB] @ lit ''you know'' @ [WordB],
       [WordB] @ lit ''i mean'' @ [WordB],
       [WordB] @ lit ''kind of'' @ [WordB],
       [WordB] @ lit ''kinda'' @ [WordB],
       [WordB] @ lit ''sort of'' @ [WordB],
       [WordB] @ lit ''sorta'' @ [WordB],
       [WordB] @ lit ''you see'' @ [WordB],
       [WordB] @ lit ''let me see'' @ [WordB],
       [WordB] @ lit (''let'' @ [CHR 0x27] @ ''s see'') @ [WordB],
       [WordB] @ lit ''u'' @ [Plus CHR ''m'', WordB],
       [WordB] @ lit ''u'' @ [Plus CHR ''h'', WordB],
       [WordB] @ lit ''er'' @ [Plus CHR ''m'', WordB],
       [WordB] @ lit ''hm'' @ [Plus CHR ''m'', WordB],
       [WordB] @ lit ''a'' @ [Plus CHR ''h'', WordB],
       [WordB] @ lit ''o'' @ [Plus CHR ''h'', WordB],
       [WordB] @ lit ''like'' @ [WordB],
       [WordB] @ lit ''basically'' @ [WordB],
       [WordB] @ lit ''actually'' @ [WordB],
       [WordB] @ lit ''literally'' @ [WordB],
       [WordB] @ lit ''well'' @ [WordB],
       [WordB] @ lit ''so'' @ [WordB],
       [WordB] @ lit ''just'' @ [WordB] ]"

text \<open>
  \<^verbatim>\<open>
  if not text or not text.strip(): return 0, []
  normalized_text = re.sub(r'\s+', ' ', text.lower().strip())
  detected_fillers = []
  for pattern in filler_patterns:
      matches = re.findall(pattern, normalized_text, flags=re.IGNORECASE)
      detected_fillers.extend(matches)
  return len(detected_fillers), detected_fillers
  \<close>
\<close>

definition filler_count :: "string \<Rightarrow> int \<times> string list" where
  "filler_count text =
     (if text = [] \<or> py_strip text = [] then (0, [])
      else let normalized_text = sub_whitespace (py_strip (py_lower text));
               detected_fillers =
                 foldl (\<lambda>detected pattern. detected @ re_findall pattern normalized_text)
                   [] filler_patterns
           in (int (length detected_fillers), detected_fillers))"


subsection \<open>The grammar checker: \<^verbatim>\<open>grammar_errors\<close>\<close>

text \<open>
  The grammar-checking engine (the package \<^verbatim>\<open>language_tool_python\<close>) is not part of the
  repository. It is a parameter of the model: \<open>LanguageTool\<close> is the import of the
  package and the construction of a tool for a language, \<open>check\<close> is \<^verbatim>\<open>tool.check(text)\<close>.
  Either can raise. The module variable \<^verbatim>\<open>_language_tool\<close> that caches the tool is passed
  in and returned.
\<close>

record lt_match =
  match_message :: string
  match_ruleId :: string
  match_context :: string
  match_offset :: int
  match_errorLength :: int
  match_replacements :: "string list"

record error_detail =
  detail_message :: string
  detail_rule_id :: string
  detail_context :: string
  detail_offset :: int
  detail_length :: int
  detail_replacements :: "string list"

record 'tool language_tool_python =
  LanguageTool :: "string \<Rightarrow> py_exception + 'tool"
  check :: "'tool \<Rightarrow> string \<Rightarrow> py_exception + lt_match list"

text \<open>
  Standard output. Both functions print a line that starts with a character beyond
  code point 255 (U+2713, a check mark, and U+26A0, a warning sign), so a printed line is a
  list of code points. \<^verbatim>\<open>print\<close> encodes the line with the encoding of the stream and
  raises \<^verbatim>\<open>UnicodeEncodeError\<close> when the encoding lacks one of its characters; nothing is
  written then. The encoding is the predicate \<open>encodable\<close>, the stream is the list of
  the lines written so far.
\<close>

definition code_points :: "string \<Rightarrow> int list" where
  "code_points s = map of_char s"

definition py_print ::
  "(int \<Rightarrow> bool) \<Rightarrow> int list list \<Rightarrow> int list \<Rightarrow> (py_exception + unit) \<times> int list list" where
  "py_print encodable out line =
     (if list_all encodable line then (Inr (), out @ [line])
      else (Inl UnicodeEncodeError, out))"

text \<open>
  \<^verbatim>\<open>str(e)\<close>: the message of the exception. For the three built-in exceptions the
  message is some text in ASCII; its wording plays no role.
\<close>

fun py_str :: "py_exception \<Rightarrow> string" where
  "py_str (Exception m) = m"
| "py_str ZeroDivisionError = ''division by zero''"
| "py_str OverflowError = ''int too large to convert to float''"
| "py_str UnicodeEncodeError = ''codec cannot encode character''"

text \<open>
  \<^verbatim>\<open>
  global _language_tool
  if _language_tool is None:
      import language_tool_python
      _language_tool = language_tool_python.LanguageTool(language)
      print(f"<U+2713> Loaded LanguageTool for {language}")
  return _language_tool
  \<close>
  The variable is assigned before the line is printed, so the tool stays cached when the
  print raises.
\<close>

definition get_language_tool ::
  "'tool language_tool_python \<Rightarrow> (int \<Rightarrow> bool) \<Rightarrow> string \<Rightarrow> 'tool option \<Rightarrow> int list list \<Rightarrow>
   (py_exception + 'tool) \<times> 'tool option \<times> int list list" where
  "get_language_tool lib encodable language cached out =
     (case cached of
        Some tool \<Rightarrow> (Inr tool, cached, out)
      | None \<Rightarrow>
          (case LanguageTool lib language of
             Inl e \<Rightarrow> (Inl e, None, out)
           | Inr tool \<Rightarrow>
               (let (printed, out') =
                      py_print encodable out
                        (10003 # code_points ('' Loaded LanguageTool for '' @ language))
                in (py_bind printed (\<lambda>_. Inr tool), Some tool, out'))))"

text \<open>
  The dictionary built for one match; \<^verbatim>\<open>match.replacements[:3] if match.replacements else []\<close>
  is the first three replacements.
\<close>

definition error_detail_of :: "lt_match \<Rightarrow> error_detail" where
  "error_detail_of m =
     \<lparr> detail_message = match_message m,
       detail_rule_id = match_ruleId m,
       detail_context = match_context m,
       detail_offset = match_offset m,
       detail_length = match_errorLength m,
       detail_replacements = take 3 (match_replacements m) \<rparr>"

text \<open>
  \<^verbatim>\<open>
  if not text or not text.strip(): return 0, []
  try:
      tool = _get_language_tool(language)
      matches = tool.check(text)
      error_details = []
      for match in matches:
          error_details.append({...})
      return len(matches), error_details
  except Exception as e:
      print(f"<U+26A0> Grammar check failed: {str(e)}")
      return 0, []
  \<close>
  \<open>body\<close> is the block under \<^verbatim>\<open>try\<close>. An exception raised by the \<^verbatim>\<open>print\<close> of the
  handler is raised outside the \<^verbatim>\<open>try\<close> block and leaves the function.
\<close>

definition grammar_errors ::
  "'tool language_tool_python \<Rightarrow> (int \<Rightarrow> bool) \<Rightarrow> string \<Rightarrow> string \<Rightarrow> 'tool option \<Rightarrow>
   int list list \<Rightarrow> (py_exception + int \<times> error_detail list) \<times> 'tool option \<times> int list list" where
  "grammar_errors lib encodable text language cached out =
     (if text = [] \<or> py_strip text = [] then (Inr (0, []), cached, out)
      else
        let (tool_result, cached', out') = get_language_tool lib encodable language cached out;
            body = py_bind tool_result (\<lambda>tool.
                   py_bind (check lib tool text) (\<lambda>matches.
                   Inr (int (length matches), map error_detail_of matches)))
        in case body of
             Inr result \<Rightarrow> (Inr result, cached', out')
           | Inl e \<Rightarrow>
               (let (printed, out'') =
                      py_print encodable out'
                        (9888 # code_points ('' Grammar check failed: '' @ py_str e))
                in (py_bind printed (\<lambda>_. Inr (0, [])), cached', out'')))"


section \<open>Predicates used in the statements\<close>

text \<open>
  \<open>ws_ok Q e s\<close>: every whitespace character of \<open>s\<close> is one space, and the character
  after it satisfies \<open>Q\<close>; \<open>e\<close> tells whether a whitespace character may stand at the
  end of \<open>s\<close>.
\<close>

fun ws_ok :: "(char \<Rightarrow> bool) \<Rightarrow> bool \<Rightarrow> string \<Rightarrow> bool" where
  "ws_ok Q e [] = True"
| "ws_ok Q e (c # cs) =
     ((if py_isspace c then c = CHR '' '' \<and> (case cs of [] \<Rightarrow> e | d # _ \<Rightarrow> Q d) else True) \<and>
      ws_ok Q e cs)"

text \<open>The right half of \<^verbatim>\<open>strip\<close>.\<close>

definition rstrip :: "string \<Rightarrow> string" where
  "rstrip s = rev (dropWhile py_isspace (rev s))"



section \<open>Sample engines and encodings\<close>

text \<open>
  Instances of the engine and of the encoding of standard output, used to run
  \<open>grammar_errors\<close> on concrete inputs: an engine whose check raises, one that cannot be
  loaded and one that finds nothing; the encodings ASCII and UTF-8.
\<close>

definition failing_lib :: "unit language_tool_python" where
  "failing_lib = \<lparr> LanguageTool = (\<lambda>language. Inr ()),
                   check = (\<lambda>tool text. Inl (Exception ''connection lost'')) \<rparr>"

definition missing_lib :: "unit language_tool_python" where
  "missing_lib = \<lparr> LanguageTool = (\<lambda>language. Inl (Exception ''No module named language_tool_python'')),
                   check = (\<lambda>tool text. Inr []) \<rparr>"

definition quiet_lib :: "unit language_tool_python" where
  "quiet_lib = \<lparr> LanguageTool = (\<lambda>language. Inr ()), check = (\<lambda>tool text. Inr []) \<rparr>"

definition ascii_encoding :: "int \<Rightarrow> bool" where
  "ascii_encoding c = (0 \<le> c \<and> c < 128)"

definition utf8_encoding :: "int \<Rightarrow> bool" where
  "utf8_encoding c = (0 \<le> c \<and> c < 1114112 \<and> \<not> (55296 \<le> c \<and> c \<le> 57343))"


section \<open>Specification-side definitions\<close>




section \<open>Rounding and clamping\<close>

lemmas scoring_constants =
  MAX_GRAMMAR_ERRORS_PER_100_def MAX_FILLERS_PER_100_def MAX_WER_def
  IDEAL_WPM_MIN_def IDEAL_WPM_MAX_def VERY_SLOW_WPM_def VERY_FAST_WPM_def
  WEIGHT_GRAMMAR_def WEIGHT_FILLERS_def WEIGHT_WER_def WEIGHT_FLUENCY_def



lemma py_round_2_range:
  assumes "0 \<le> x" "x \<le> 100"
  shows "0 \<le> py_round x 2 \<and> py_round x 2 \<le> 100"
proof -
  have lo: "0 \<le> round_half_even (x * 10 ^ 2)"
    using assms(1) unfolding round_half_even_def Let_def by auto
  have hi: "round_half_even (x * 10 ^ 2) \<le> 10000"
  proof (cases "x = 100")
    case True
    then show ?thesis unfolding round_half_even_def Let_def by simp
  next
    case False
    then have "x * 10 ^ 2 < 10000" using assms(2) by simp
    then have "\<lfloor>x * 10 ^ 2\<rfloor> < 10000" by linarith
    then show ?thesis unfolding round_half_even_def Let_def by auto
  qed
  show ?thesis unfolding py_round_def using lo hi by (simp add: field_simps)
qed

lemma clamp_01_id: "0 \<le> x \<Longrightarrow> x \<le> 1 \<Longrightarrow> clamp_01 x = x"
  by (simp add: clamp_01_def)

lemma clamp_01_mono: "x \<le> y \<Longrightarrow> clamp_01 x \<le> clamp_01 y"
  by (simp add: clamp_01_def max_def min_def)

lemma clamp_01_ge_1: "1 \<le> x \<Longrightarrow> clamp_01 x = 1"
  by (simp add: clamp_01_def max_def min_def)

lemma at_threshold: "0 < c \<Longrightarrow> c \<le> r \<Longrightarrow> 1 \<le> r / (c::real)"
  by (simp add: le_divide_eq)

lemma rate_mono:
  fixes e1 e2 w :: int
  assumes "0 < w" "e1 \<le> e2" "0 < (c::real)"
  shows "real_of_int e1 / real_of_int w * 100 / c \<le> real_of_int e2 / real_of_int w * 100 / c"
  using assms by (simp add: divide_right_mono)


section \<open>The composite score\<close>

lemmas score_eval =
  calculate_final_score_def Let_def py_round_def round_half_even_def scoring_constants clamp_01_def

lemma calculate_final_score_range:
  "0 \<le> calculate_final_score g f w fl \<and> calculate_final_score g f w fl \<le> 100"
  unfolding calculate_final_score_def Let_def
  by (rule py_round_2_range) auto


text \<open>
  Claim C1 as stated fails: \<^verbatim>\<open>calculate_final_score\<close> does not clamp its four inputs.
  A grammar penalty of 2 contributes its full weighted value: the score is 30, while the
  score of the clamped inputs \<open>(1, 0, 0, 0)\<close> is 65.
\<close>

theorem calculate_final_score_unclamped_inputs:
  "calculate_final_score 2 0 0 0 = 30 \<and>
   calculate_final_score (clamp_01 2) (clamp_01 0) (clamp_01 0) (clamp_01 0) = 65"
  unfolding score_eval by simp

text \<open>
  Claim C1, amended: for every four real inputs, out of range or not, the score returned by
  \<^verbatim>\<open>calculate_final_score\<close> lies in \<open>[0, 100]\<close> (the clamp is applied to the combined
  score); and when each input already lies in \<open>[0, 1]\<close> the result is that of the
  clamped inputs.
\<close>

theorem calculate_final_score_bounded:
  "0 \<le> calculate_final_score g f w fl \<and> calculate_final_score g f w fl \<le> 100 \<and>
   (0 \<le> g \<and> g \<le> 1 \<and> 0 \<le> f \<and> f \<le> 1 \<and> 0 \<le> w \<and> w \<le> 1 \<and> 0 \<le> fl \<and> fl \<le> 1 \<longrightarrow>
      calculate_final_score g f w fl =
      calculate_final_score (clamp_01 g) (clamp_01 f) (clamp_01 w) (clamp_01 fl))"
  using calculate_final_score_range [of g f w fl] by (simp add: clamp_01_id)

theorem calculate_final_score_bounded_witness:
  "calculate_final_score (1 / 2) (1 / 4) 0 1 =
   calculate_final_score (clamp_01 (1 / 2)) (clamp_01 (1 / 4)) (clamp_01 0) (clamp_01 1) \<and>
   0 \<le> calculate_final_score (1 / 2) (1 / 4) 0 1 \<and>
   calculate_final_score (1 / 2) (1 / 4) 0 1 \<le> 100"
  using calculate_final_score_bounded [of "1 / 2" "1 / 4" 0 1] by simp



section \<open>The fluency penalty\<close>

lemmas fluency_eval =
  fluency_penalty_def py_bind_def float_truediv_def Let_def scoring_constants clamp_01_def

text \<open>
  Claim C3 as stated fails: a speaking rate of 0 words per minute is at most 60, and its
  penalty is 0, not 1. The guard \<^verbatim>\<open>wpm <= 0\<close> returns before the ramp is reached.
\<close>

theorem fluency_penalty_zero_wpm:
  "(0::real) \<le> 60 \<and> fluency_penalty (Some 0) = Inr 0 \<and> fluency_penalty (Some 0) \<noteq> Inr 1"
  unfolding fluency_eval by simp

text \<open>
  Claim C3, amended: \<^verbatim>\<open>fluency_penalty\<close> is exactly 0 when WPM lies in \<open>[110, 170]\<close>;
  exactly 1 for every WPM with \<open>0 < WPM \<le> 60\<close> and for every WPM of at least 220; the
  ramp \<open>(110 - wpm) / 50\<close> between 60 and 110; and the ramp \<open>(wpm - 170) / 50\<close>
  between 170 and 220.
\<close>

theorem fluency_penalty_piecewise:
  "(110 \<le> a \<and> a \<le> 170 \<longrightarrow> fluency_penalty (Some a) = Inr 0) \<and>
   (0 < b \<and> b \<le> 60 \<longrightarrow> fluency_penalty (Some b) = Inr 1) \<and>
   (220 \<le> c \<longrightarrow> fluency_penalty (Some c) = Inr 1) \<and>
   (60 \<le> d \<and> d \<le> 110 \<longrightarrow> fluency_penalty (Some d) = Inr ((110 - d) / 50)) \<and>
   (170 \<le> e \<and> e \<le> 220 \<longrightarrow> fluency_penalty (Some e) = Inr ((e - 170) / 50))"
  unfolding fluency_eval by (auto simp: max_def min_def)

theorem fluency_penalty_piecewise_witness:
  "fluency_penalty (Some 140) = Inr 0 \<and> fluency_penalty (Some 40) = Inr 1 \<and>
   fluency_penalty (Some 250) = Inr 1 \<and> fluency_penalty (Some 90) = Inr (2 / 5) \<and>
   fluency_penalty (Some 200) = Inr (3 / 5)"
  using fluency_penalty_piecewise [of 140 40 250 90 200] by simp


section \<open>The range of a double\<close>

lemma FLOAT_OVERFLOW_ge: "2 ^ 1023 \<le> FLOAT_OVERFLOW"
proof -
  have "(2::real) ^ 970 \<le> 2 ^ 1023" by (rule power_increasing) simp_all
  moreover have "(2::real) ^ 1024 = 2 * 2 ^ 1023" by simp
  ultimately show ?thesis unfolding FLOAT_OVERFLOW_def by linarith
qed

lemma FLOAT_OVERFLOW_le: "FLOAT_OVERFLOW \<le> 2 ^ 1024"
  unfolding FLOAT_OVERFLOW_def by simp

lemma in_double_range_small: "\<bar>x\<bar> \<le> 10 ^ 100 \<Longrightarrow> in_double_range x"
proof -
  assume x: "\<bar>x\<bar> \<le> 10 ^ 100"
  have "(10::real) ^ 100 \<le> 16 ^ 100" by (rule power_mono) simp_all
  also have "\<dots> = 2 ^ 400" by (simp add: power_mult [symmetric, of 2 4 100, simplified])
  also have "\<dots> < 2 ^ 1023" by (rule power_strict_increasing) simp_all
  finally show ?thesis using x FLOAT_OVERFLOW_ge unfolding in_double_range_def by linarith
qed

lemma not_in_double_range_2_1024: "\<not> in_double_range (2 ^ 1024)"
  using FLOAT_OVERFLOW_le unfolding in_double_range_def by simp

lemma in_double_range_quotient:
  assumes "0 < w" "in_double_range (real_of_int e)"
  shows "in_double_range (real_of_int e / real_of_int w)"
proof -
  from assms(1) have "1 \<le> real_of_int w" by simp
  then have "\<bar>real_of_int e\<bar> / real_of_int w \<le> \<bar>real_of_int e\<bar> / 1"
    by (intro divide_left_mono) simp_all
  with assms show ?thesis unfolding in_double_range_def by simp
qed


section \<open>The rate penalties\<close>

lemmas penalty_eval =
  normalize_grammar_errors_def normalize_fillers_def normalize_wer_def
  py_bind_def float_truediv_def int_truediv_def Let_def scoring_constants

lemma normalize_grammar_errors_pos:
  "0 < w \<Longrightarrow>
   normalize_grammar_errors e w =
     (if in_double_range (real_of_int e / real_of_int w)
      then Inr (clamp_01 (real_of_int e / real_of_int w * 100 / 12))
      else Inl OverflowError)"
  unfolding penalty_eval by simp

lemma normalize_fillers_pos:
  "0 < w \<Longrightarrow>
   normalize_fillers e w =
     (if in_double_range (real_of_int e / real_of_int w)
      then Inr (clamp_01 (real_of_int e / real_of_int w * 100 / 8))
      else Inl OverflowError)"
  unfolding penalty_eval by simp

lemma normalize_wer_nonneg:
  "0 \<le> x \<Longrightarrow> normalize_wer (Some x) = Inr (clamp_01 (x / (35 / 100)))"
  unfolding penalty_eval by simp

text \<open>
  Claim C4 as stated fails where the division leaves the range of a double: with
  \<open>2 ^ 1024\<close> errors in one word the rate is beyond 12 per 100 words, and
  \<^verbatim>\<open>normalize_grammar_errors\<close> raises \<^verbatim>\<open>OverflowError\<close> instead of returning 1.
\<close>

theorem normalize_grammar_errors_overflow:
  "(0::int) < 1 \<and> 12 \<le> real_of_int (2 ^ 1024) / real_of_int 1 * 100 \<and>
   normalize_grammar_errors (2 ^ 1024) 1 = Inl OverflowError"
proof -
  have "(12::real) \<le> 2 ^ 1024 * 100"
  proof -
    have "(2::real) ^ 4 \<le> 2 ^ 1024" by (rule power_increasing) simp_all
    then show ?thesis by simp
  qed
  moreover have "normalize_grammar_errors (2 ^ 1024) 1 = Inl OverflowError"
    using not_in_double_range_2_1024 by (simp add: normalize_grammar_errors_pos)
  ultimately show ?thesis by simp
qed

text \<open>
  Claim C4, amended: for a fixed positive word count and error counts whose quotient by the
  word count is within the range of a double, \<^verbatim>\<open>normalize_grammar_errors\<close> is monotonically
  non-decreasing in the error count and is exactly 1 once the rate reaches 12 errors per 100
  words; \<^verbatim>\<open>normalize_fillers\<close> likewise with 8 fillers per 100 words; and
  \<^verbatim>\<open>normalize_wer\<close> is monotonically non-decreasing on non-negative rates and exactly 1
  from 0.35 on.
\<close>

theorem penalties_monotone_saturating:
  "(0 < w1 \<and> a1 \<le> b1 \<and> in_double_range (real_of_int a1 / real_of_int w1) \<and>
    in_double_range (real_of_int b1 / real_of_int w1) \<longrightarrow>
      (\<exists>p q. normalize_grammar_errors a1 w1 = Inr p \<and>
             normalize_grammar_errors b1 w1 = Inr q \<and> p \<le> q)) \<and>
   (0 < w2 \<and> 12 \<le> real_of_int e2 / real_of_int w2 * 100 \<and>
    in_double_range (real_of_int e2 / real_of_int w2) \<longrightarrow>
      normalize_grammar_errors e2 w2 = Inr 1) \<and>
   (0 < w3 \<and> a3 \<le> b3 \<and> in_double_range (real_of_int a3 / real_of_int w3) \<and>
    in_double_range (real_of_int b3 / real_of_int w3) \<longrightarrow>
      (\<exists>p q. normalize_fillers a3 w3 = Inr p \<and> normalize_fillers b3 w3 = Inr q \<and> p \<le> q)) \<and>
   (0 < w4 \<and> 8 \<le> real_of_int e4 / real_of_int w4 * 100 \<and>
    in_double_range (real_of_int e4 / real_of_int w4) \<longrightarrow>
      normalize_fillers e4 w4 = Inr 1) \<and>
   (0 \<le> x \<and> x \<le> y \<longrightarrow>
      (\<exists>p q. normalize_wer (Some x) = Inr p \<and> normalize_wer (Some y) = Inr q \<and> p \<le> q)) \<and>
   (35 / 100 \<le> z \<longrightarrow> normalize_wer (Some z) = Inr 1)"
proof -
  have g1: "\<exists>p q. normalize_grammar_errors a1 w1 = Inr p \<and>
                 normalize_grammar_errors b1 w1 = Inr q \<and> p \<le> q"
    if "0 < w1" "a1 \<le> b1" "in_double_range (real_of_int a1 / real_of_int w1)"
      "in_double_range (real_of_int b1 / real_of_int w1)"
  proof -
    have "clamp_01 (real_of_int a1 / real_of_int w1 * 100 / 12)
          \<le> clamp_01 (real_of_int b1 / real_of_int w1 * 100 / 12)"
      by (intro clamp_01_mono rate_mono that) simp
    then show ?thesis
      unfolding normalize_grammar_errors_pos [OF that(1)] using that(3,4) by simp
  qed
  have g2: "normalize_grammar_errors e2 w2 = Inr 1"
    if "0 < w2" "12 \<le> real_of_int e2 / real_of_int w2 * 100"
      "in_double_range (real_of_int e2 / real_of_int w2)"
  proof -
    from that(2) have "1 \<le> real_of_int e2 / real_of_int w2 * 100 / 12"
      by (intro at_threshold) simp_all
    then have "clamp_01 (real_of_int e2 / real_of_int w2 * 100 / 12) = 1"
      by (rule clamp_01_ge_1)
    then show ?thesis
      unfolding normalize_grammar_errors_pos [OF that(1)] using that(3) by simp
  qed
  have f1: "\<exists>p q. normalize_fillers a3 w3 = Inr p \<and> normalize_fillers b3 w3 = Inr q \<and> p \<le> q"
    if "0 < w3" "a3 \<le> b3" "in_double_range (real_of_int a3 / real_of_int w3)"
      "in_double_range (real_of_int b3 / real_of_int w3)"
  proof -
    have "clamp_01 (real_of_int a3 / real_of_int w3 * 100 / 8)
          \<le> clamp_01 (real_of_int b3 / real_of_int w3 * 100 / 8)"
      by (intro clamp_01_mono rate_mono that) simp
    then show ?thesis
      unfolding normalize_fillers_pos [OF that(1)] using that(3,4) by simp
  qed
  have f2: "normalize_fillers e4 w4 = Inr 1"
    if "0 < w4" "8 \<le> real_of_int e4 / real_of_int w4 * 100"
      "in_double_range (real_of_int e4 / real_of_int w4)"
  proof -
    from that(2) have "1 \<le> real_of_int e4 / real_of_int w4 * 100 / 8"
      by (intro at_threshold) simp_all
    then have "clamp_01 (real_of_int e4 / real_of_int w4 * 100 / 8) = 1"
      by (rule clamp_01_ge_1)
    then show ?thesis
      unfolding normalize_fillers_pos [OF that(1)] using that(3) by simp
  qed
  have w1: "\<exists>p q. normalize_wer (Some x) = Inr p \<and> normalize_wer (Some y) = Inr q \<and> p \<le> q"
    if "0 \<le> x" "x \<le> y"
  proof -
    have "clamp_01 (x / (35 / 100)) \<le> clamp_01 (y / (35 / 100))"
      by (intro clamp_01_mono divide_right_mono that) simp
    moreover from that have "0 \<le> y" by simp
    ultimately show ?thesis
      unfolding normalize_wer_nonneg [OF that(1)] normalize_wer_nonneg [OF \<open>0 \<le> y\<close>] by blast
  qed
  have w2: "normalize_wer (Some z) = Inr 1" if "35 / 100 \<le> z"
  proof -
    from that have z: "0 \<le> z" by simp
    from that have "1 \<le> z / (35 / 100)" by (intro at_threshold) simp_all
    then show ?thesis unfolding normalize_wer_nonneg [OF z] by (simp only: clamp_01_ge_1)
  qed
  from g1 g2 f1 f2 w1 w2 show ?thesis by blast
qed

theorem penalties_monotone_saturating_witness:
  "(\<exists>p q. normalize_grammar_errors 3 100 = Inr p \<and>
          normalize_grammar_errors 6 100 = Inr q \<and> p \<le> q) \<and>
   normalize_grammar_errors 15 50 = Inr 1 \<and>
   (\<exists>p q. normalize_fillers 2 100 = Inr p \<and> normalize_fillers 4 100 = Inr q \<and> p \<le> q) \<and>
   normalize_fillers 8 100 = Inr 1 \<and>
   (\<exists>p q. normalize_wer (Some (1 / 10)) = Inr p \<and>
          normalize_wer (Some (2 / 10)) = Inr q \<and> p \<le> q) \<and>
   normalize_wer (Some (1 / 2)) = Inr 1"
proof -
  have r: "in_double_range (real_of_int 3 / real_of_int 100)"
    "in_double_range (real_of_int 6 / real_of_int 100)"
    "in_double_range (real_of_int 15 / real_of_int 50)"
    "in_double_range (real_of_int 2 / real_of_int 100)"
    "in_double_range (real_of_int 4 / real_of_int 100)"
    "in_double_range (real_of_int 8 / real_of_int 100)"
    by (rule in_double_range_small, simp)+
  from penalties_monotone_saturating
         [of 100 3 6 50 15 100 2 4 100 8 "1 / 10" "2 / 10" "1 / 2"] r
  show ?thesis by simp
qed

text \<open>
  Claim C7 as stated fails in its example: 3 errors in 50 words are 6 errors per 100 words,
  half of the threshold of 12, so the penalty is 0.5 and not 0.25.
\<close>

theorem normalize_grammar_errors_3_in_50:
  "normalize_grammar_errors 3 50 = Inr (1 / 2) \<and> normalize_grammar_errors 3 50 \<noteq> Inr (1 / 4)"
proof -
  have "in_double_range (real_of_int 3 / real_of_int 50)"
    by (rule in_double_range_small) simp
  then show ?thesis by (simp add: normalize_grammar_errors_pos clamp_01_def)
qed

text \<open>
  Claim C7, amended: for every error count \<open>e\<close>, every positive word count \<open>w\<close> and every
  positive scalar \<open>k\<close> such that \<open>k * e\<close> and \<open>k * w\<close> are again integer counts,
  \<^verbatim>\<open>normalize_grammar_errors(e, w) = normalize_grammar_errors(k*e, k*w)\<close>; for example
  \<^verbatim>\<open>normalize_grammar_errors(3, 50) = normalize_grammar_errors(6, 100) = 0.5\<close>.
\<close>

theorem normalize_grammar_errors_rate_invariant:
  "(0 < w \<and> 0 < k \<and> real_of_int e' = k * real_of_int e \<and> real_of_int w' = k * real_of_int w \<longrightarrow>
      normalize_grammar_errors e w = normalize_grammar_errors e' w') \<and>
   normalize_grammar_errors 3 50 = Inr (1 / 2) \<and>
   normalize_grammar_errors 6 100 = Inr (1 / 2)"
proof -
  have inv: "normalize_grammar_errors e w = normalize_grammar_errors e' w'"
    if "0 < w" "0 < k" "real_of_int e' = k * real_of_int e" "real_of_int w' = k * real_of_int w"
  proof -
    from that have "0 < real_of_int w'" by simp
    then have w': "0 < w'" by simp
    have "real_of_int e' / real_of_int w' = real_of_int e / real_of_int w"
      using that by simp
    then show ?thesis
      using that(1) w' by (simp add: normalize_grammar_errors_pos)
  qed
  have "in_double_range (real_of_int 3 / real_of_int 50)"
    "in_double_range (real_of_int 6 / real_of_int 100)"
    by (rule in_double_range_small, simp)+
  then have a: "normalize_grammar_errors 3 50 = Inr (1 / 2)"
    and b: "normalize_grammar_errors 6 100 = Inr (1 / 2)"
    by (simp_all add: normalize_grammar_errors_pos clamp_01_def)
  from inv a b show ?thesis by blast
qed

theorem normalize_grammar_errors_rate_invariant_witness:
  "normalize_grammar_errors 3 50 = normalize_grammar_errors 6 100"
  using normalize_grammar_errors_rate_invariant [of 50 2 6 3 100] by simp


section \<open>The speaking rate\<close>






section \<open>The transcript normalizer\<close>

lemma space_isspace: "py_isspace CHR '' ''"
  by (simp add: py_isspace_def)

lemma punct_not_space: "is_punct c \<Longrightarrow> \<not> py_isspace c"
  by (auto simp: is_punct_def py_isspace_def)

lemma dropWhile_append_stop:
  "\<not> py_isspace x \<Longrightarrow> dropWhile py_isspace (cs @ x # v) = dropWhile py_isspace cs @ x # v"
  by (induction cs) auto

lemma dropWhile_all: "\<forall>x\<in>set cs. P x \<Longrightarrow> dropWhile P cs = []"
  by simp

lemma filter_dropWhile_neg: "filter (\<lambda>c. \<not> P c) (dropWhile P cs) = filter (\<lambda>c. \<not> P c) cs"
  by (induction cs) auto

subsection \<open>The whitespace substitution\<close>

lemma sub_whitespace_filter:
  "filter (\<lambda>c. \<not> py_isspace c) (sub_whitespace s) = filter (\<lambda>c. \<not> py_isspace c) s"
  by (induction s rule: sub_whitespace.induct) (auto simp: space_isspace filter_dropWhile_neg)

lemma sub_whitespace_append:
  "\<not> py_isspace x \<Longrightarrow> sub_whitespace (u @ x # v) = sub_whitespace u @ x # sub_whitespace v"
  by (induction u rule: sub_whitespace.induct) (auto simp: dropWhile_append_stop)

lemma sub_whitespace_all_space:
  "\<forall>c\<in>set ws. py_isspace c \<Longrightarrow> sub_whitespace ws = (if ws = [] then [] else '' '')"
  by (cases ws) (auto simp: dropWhile_all)

lemma hd_dropWhile_cases: "dropWhile P cs = [] \<or> (\<exists>d ds. dropWhile P cs = d # ds \<and> \<not> P d)"
  by (metis hd_dropWhile list.exhaust list.sel(1))

lemma sub_whitespace_collapsed: "ws_ok (\<lambda>d. \<not> py_isspace d) True (sub_whitespace s)"
proof (induction s rule: sub_whitespace.induct)
  case 1
  then show ?case by simp
next
  case (2 c cs)
  show ?case
  proof (cases "py_isspace c")
    case True
    from hd_dropWhile_cases [of py_isspace cs] show ?thesis
    proof
      assume "dropWhile py_isspace cs = []"
      with True show ?thesis by (simp add: dropWhile_all space_isspace)
    next
      assume "\<exists>d ds. dropWhile py_isspace cs = d # ds \<and> \<not> py_isspace d"
      then obtain d ds where d: "dropWhile py_isspace cs = d # ds" "\<not> py_isspace d" by blast
      with True 2 show ?thesis by (simp add: space_isspace)
    qed
  next
    case False
    with 2 show ?thesis by simp
  qed
qed


subsection \<open>The punctuation substitution\<close>

lemma sbp_nonspace:
  "\<not> py_isspace c \<Longrightarrow> sub_space_before_punct (c # cs) = c # sub_space_before_punct cs"
  by simp

lemma sbp_space_end:
  "py_isspace c \<Longrightarrow> dropWhile py_isspace cs = [] \<Longrightarrow>
   sub_space_before_punct (c # cs) = c # sub_space_before_punct cs"
  by (simp del: dropWhile_eq_Nil_conv)

lemma sbp_space_punct:
  "py_isspace c \<Longrightarrow> dropWhile py_isspace cs = p # rest \<Longrightarrow> is_punct p \<Longrightarrow>
   sub_space_before_punct (c # cs) = p # sub_space_before_punct rest"
  by simp

lemma sbp_space_other:
  "py_isspace c \<Longrightarrow> dropWhile py_isspace cs = p # rest \<Longrightarrow> \<not> is_punct p \<Longrightarrow>
   sub_space_before_punct (c # cs) = c # sub_space_before_punct cs"
  by simp

lemma sub_space_before_punct_filter:
  "filter (\<lambda>c. \<not> py_isspace c) (sub_space_before_punct s) = filter (\<lambda>c. \<not> py_isspace c) s"
proof (induction s rule: sub_space_before_punct.induct)
  case 1
  then show ?case by simp
next
  case (2 c cs)
  show ?case
  proof (cases "py_isspace c")
    case False
    with 2 show ?thesis by (simp add: sbp_nonspace del: sub_space_before_punct.simps)
  next
    case True
    show ?thesis
    proof (cases "dropWhile py_isspace cs")
      case Nil
      from "2.IH"(1) [OF True Nil] True show ?thesis
        by (simp add: sbp_space_end [OF True Nil] del: sub_space_before_punct.simps)
    next
      case (Cons p rest)
      show ?thesis
      proof (cases "is_punct p")
        case False
        from "2.IH"(3) [OF True Cons False] True show ?thesis
          by (simp add: sbp_space_other [OF True Cons False] del: sub_space_before_punct.simps)
      next
        case p: True
        have "filter (\<lambda>c. \<not> py_isspace c) cs = filter (\<lambda>c. \<not> py_isspace c) (p # rest)"
          using filter_dropWhile_neg [of py_isspace cs] Cons by simp
        with "2.IH"(2) [OF True Cons p] True p show ?thesis
          by (simp add: sbp_space_punct [OF True Cons p] punct_not_space
                   del: sub_space_before_punct.simps)
      qed
    qed
  qed
qed

lemma sub_space_before_punct_ok:
  "ws_ok (\<lambda>d. \<not> py_isspace d) True s \<Longrightarrow>
   ws_ok (\<lambda>d. \<not> py_isspace d \<and> \<not> is_punct d) True (sub_space_before_punct s)"
proof (induction s rule: sub_space_before_punct.induct)
  case 1
  then show ?case by simp
next
  case (2 c cs)
  from "2.prems" have tl: "ws_ok (\<lambda>d. \<not> py_isspace d) True cs" by simp
  show ?case
  proof (cases "py_isspace c")
    case False
    with "2.IH"(4) [OF False tl] show ?thesis
      by (simp add: sbp_nonspace del: sub_space_before_punct.simps)
  next
    case True
    show ?thesis
    proof (cases cs)
      case Nil
      with True "2.prems" show ?thesis by simp
    next
      case (Cons p rest)
      with True "2.prems" have p: "\<not> py_isspace p" and c: "c = CHR '' ''" by simp_all
      from p Cons have dw: "dropWhile py_isspace cs = p # rest" by simp
      from tl Cons have rest: "ws_ok (\<lambda>d. \<not> py_isspace d) True rest" by simp
      show ?thesis
      proof (cases "is_punct p")
        case pp: True
        from "2.IH"(2) [OF True dw pp rest] p show ?thesis
          by (simp add: sbp_space_punct [OF True dw pp] del: sub_space_before_punct.simps)
      next
        case np: False
        have cs: "sub_space_before_punct cs = p # sub_space_before_punct rest"
          unfolding Cons using p by (rule sbp_nonspace)
        have "ws_ok (\<lambda>d. \<not> py_isspace d \<and> \<not> is_punct d) True
                (c # p # sub_space_before_punct rest)"
          using "2.IH"(3) [OF True dw np tl] np p c unfolding cs by simp
        then show ?thesis
          unfolding sbp_space_other [OF True dw np] cs .
      qed
    qed
  qed
qed

lemma sub_space_before_punct_split:
  "\<not> py_isspace x \<Longrightarrow>
   sub_space_before_punct (u @ x # v) = sub_space_before_punct (u @ [x]) @ sub_space_before_punct v"
proof (induction u rule: sub_space_before_punct.induct)
  case 1
  then show ?case by simp
next
  case (2 c cs)
  note x = \<open>\<not> py_isspace x\<close>
  show ?case
  proof (cases "py_isspace c")
    case False
    with "2.IH"(4) [OF False x] show ?thesis
      by (simp add: sbp_nonspace del: sub_space_before_punct.simps)
  next
    case True
    have dv: "dropWhile py_isspace (cs @ x # v) = dropWhile py_isspace cs @ x # v"
      and d1: "dropWhile py_isspace (cs @ [x]) = dropWhile py_isspace cs @ [x]"
      by (rule dropWhile_append_stop [OF x])+
    show ?thesis
    proof (cases "dropWhile py_isspace cs")
      case Nil
      from dv d1 Nil have dv': "dropWhile py_isspace (cs @ x # v) = x # v"
        and d1': "dropWhile py_isspace (cs @ [x]) = x # []" by simp_all
      show ?thesis
      proof (cases "is_punct x")
        case px: True
        show ?thesis
          using sbp_space_punct [OF True dv' px] sbp_space_punct [OF True d1' px] by simp
      next
        case nx: False
        show ?thesis
          using sbp_space_other [OF True dv' nx] sbp_space_other [OF True d1' nx]
            "2.IH"(1) [OF True Nil x] by simp
      qed
    next
      case (Cons p rest)
      from dv d1 Cons have dv': "dropWhile py_isspace (cs @ x # v) = p # (rest @ x # v)"
        and d1': "dropWhile py_isspace (cs @ [x]) = p # (rest @ [x])" by simp_all
      show ?thesis
      proof (cases "is_punct p")
        case pp: True
        show ?thesis
          using sbp_space_punct [OF True dv' pp] sbp_space_punct [OF True d1' pp]
            "2.IH"(2) [OF True Cons pp x] by simp
      next
        case np: False
        show ?thesis
          using sbp_space_other [OF True dv' np] sbp_space_other [OF True d1' np]
            "2.IH"(3) [OF True Cons np x] by simp
      qed
    qed
  qed
qed

lemma sub_space_before_punct_run:
  "\<forall>c\<in>set ws. py_isspace c \<Longrightarrow> \<not> py_isspace y \<Longrightarrow>
   sub_space_before_punct (ws @ y # v) = (if is_punct y then [] else ws) @ y # sub_space_before_punct v"
proof (induction ws)
  case Nil
  then show ?case by simp
next
  case (Cons c ws)
  then have c: "py_isspace c" and dw: "dropWhile py_isspace (ws @ y # v) = y # v"
    by (simp_all add: dropWhile_append_stop dropWhile_all)
  show ?case
  proof (cases "is_punct y")
    case True
    show ?thesis using sbp_space_punct [OF c dw True] True by simp
  next
    case False
    show ?thesis using sbp_space_other [OF c dw False] False Cons by simp
  qed
qed

lemma sub_space_before_punct_last:
  "\<not> py_isspace x \<Longrightarrow> \<exists>r. sub_space_before_punct (u @ [x]) = r @ [x]"
proof -
  assume x: "\<not> py_isspace x"
  show ?thesis
  proof (induction u rule: sub_space_before_punct.induct)
    case 1
    from x show ?case by simp
  next
    case (2 c cs)
    have d1: "dropWhile py_isspace (cs @ [x]) = dropWhile py_isspace cs @ [x]"
      by (rule dropWhile_append_stop [OF x])
    show ?case
    proof (cases "py_isspace c")
      case False
      from "2.IH"(4) [OF False] obtain r where "sub_space_before_punct (cs @ [x]) = r @ [x]" ..
      with False show ?thesis by (simp add: sbp_nonspace del: sub_space_before_punct.simps)
    next
      case True
      show ?thesis
      proof (cases "dropWhile py_isspace cs")
        case Nil
        from d1 Nil have d1': "dropWhile py_isspace (cs @ [x]) = x # []" by simp
        from "2.IH"(1) [OF True Nil] obtain r where r: "sub_space_before_punct (cs @ [x]) = r @ [x]" ..
        show ?thesis
        proof (cases "is_punct x")
          case px: True
          show ?thesis using sbp_space_punct [OF True d1' px] by simp
        next
          case nx: False
          show ?thesis using sbp_space_other [OF True d1' nx] r by simp
        qed
      next
        case (Cons p rest)
        from d1 Cons have d1': "dropWhile py_isspace (cs @ [x]) = p # (rest @ [x])" by simp
        show ?thesis
        proof (cases "is_punct p")
          case pp: True
          from "2.IH"(2) [OF True Cons pp] obtain r where "sub_space_before_punct (rest @ [x]) = r @ [x]" ..
          then show ?thesis using sbp_space_punct [OF True d1' pp] by simp
        next
          case np: False
          from "2.IH"(3) [OF True Cons np] obtain r where "sub_space_before_punct (cs @ [x]) = r @ [x]" ..
          then show ?thesis using sbp_space_other [OF True d1' np] by simp
        qed
      qed
    qed
  qed
qed


subsection \<open>Stripping and the composition\<close>

lemma rstrip_Nil: "rstrip [] = []"
  by (simp add: rstrip_def)

lemma rstrip_Cons:
  "rstrip (c # cs) = (if rstrip cs = [] then (if py_isspace c then [] else [c]) else c # rstrip cs)"
  by (auto simp: rstrip_def dropWhile_append)

lemma py_strip_rstrip: "py_strip s = rstrip (dropWhile py_isspace s)"
  by (simp add: py_strip_def rstrip_def)

lemma rstrip_filter: "filter (\<lambda>c. \<not> py_isspace c) (rstrip s) = filter (\<lambda>c. \<not> py_isspace c) s"
  by (induction s) (auto simp: rstrip_Nil rstrip_Cons)

lemma py_strip_filter: "filter (\<lambda>c. \<not> py_isspace c) (py_strip s) = filter (\<lambda>c. \<not> py_isspace c) s"
  by (simp add: py_strip_rstrip rstrip_filter filter_dropWhile_neg)

lemma rstrip_keep: "\<not> py_isspace y \<Longrightarrow> rstrip (l @ y # b) = l @ y # rstrip b"
  by (induction l) (auto simp: rstrip_Nil rstrip_Cons)

lemma py_strip_between:
  assumes "\<not> py_isspace x" "\<not> py_isspace y"
  shows "py_strip (a @ x # m @ y # b) = py_strip (a @ [x]) @ m @ py_strip (y # b)"
proof -
  have "py_strip (a @ x # m @ y # b) = rstrip ((dropWhile py_isspace a @ x # m) @ y # b)"
    using assms(1) by (simp add: py_strip_rstrip dropWhile_append_stop)
  also have "\<dots> = (dropWhile py_isspace a @ x # m) @ y # rstrip b"
    using assms(2) by (rule rstrip_keep)
  finally have whole: "py_strip (a @ x # m @ y # b) = dropWhile py_isspace a @ x # m @ y # rstrip b"
    by simp
  have left: "py_strip (a @ [x]) = dropWhile py_isspace a @ [x]"
    using assms(1) rstrip_keep [of x "dropWhile py_isspace a" "[]"]
    by (simp add: py_strip_rstrip dropWhile_append_stop rstrip_Nil)
  have right: "py_strip (y # b) = y # rstrip b"
    using assms(2) rstrip_keep [of y "[]" b] by (simp add: py_strip_rstrip)
  show ?thesis unfolding whole left right by simp
qed

lemma ws_ok_dropWhile: "ws_ok Q e s \<Longrightarrow> ws_ok Q e (dropWhile P s)"
  by (induction s) auto

lemma rstrip_ws_ok:
  assumes "\<And>d. Q d \<Longrightarrow> \<not> py_isspace d"
  shows "ws_ok Q True s \<Longrightarrow> ws_ok Q False (rstrip s)"
proof (induction s)
  case Nil
  then show ?case by (simp add: rstrip_Nil)
next
  case (Cons c cs)
  then have IH: "ws_ok Q False (rstrip cs)" by simp
  show ?case
  proof (cases "rstrip cs = []")
    case True
    then show ?thesis by (simp add: rstrip_Cons)
  next
    case False
    then obtain d ds where cs: "cs = d # ds" by (cases cs) (auto simp: rstrip_Nil)
    show ?thesis
    proof (cases "py_isspace c")
      case nc: False
      with False IH show ?thesis by (simp add: rstrip_Cons)
    next
      case sc: True
      with Cons.prems cs have c: "c = CHR '' ''" and d: "Q d" by simp_all
      from d have "\<not> py_isspace d" by (rule assms)
      then have "rstrip cs = d # rstrip ds" unfolding cs using rstrip_keep [of d "[]" ds] by simp
      with IH c d sc show ?thesis by (simp add: rstrip_Cons)
    qed
  qed
qed

lemma ws_ok_adjacent: "ws_ok Q e (a @ c # d # b) \<Longrightarrow> py_isspace c \<Longrightarrow> c = CHR '' '' \<and> Q d"
  by (induction a) auto

lemma ws_ok_last: "ws_ok Q False s \<Longrightarrow> s \<noteq> [] \<Longrightarrow> \<not> py_isspace (last s)"
  by (induction s) (auto split: list.splits if_splits)

lemma normalize_transcript_eq:
  "normalize_transcript t = py_strip (sub_space_before_punct (sub_whitespace t))"
  by (simp add: normalize_transcript_def py_strip_def)

lemma normalize_transcript_ws_ok:
  "ws_ok (\<lambda>d. \<not> py_isspace d \<and> \<not> is_punct d) False (normalize_transcript t)"
  unfolding normalize_transcript_eq py_strip_rstrip
  by (intro rstrip_ws_ok ws_ok_dropWhile sub_space_before_punct_ok sub_whitespace_collapsed) simp

lemma normalize_transcript_hd:
  "normalize_transcript t \<noteq> [] \<Longrightarrow> \<not> py_isspace (hd (normalize_transcript t))"
proof -
  assume ne: "normalize_transcript t \<noteq> []"
  define l where "l = dropWhile py_isspace (sub_space_before_punct (sub_whitespace t))"
  have n: "normalize_transcript t = rstrip l"
    by (simp add: normalize_transcript_eq py_strip_rstrip l_def)
  with ne obtain d ds where l: "l = d # ds" by (cases l) (auto simp: rstrip_Nil)
  then have "\<not> py_isspace d" using hd_dropWhile [of py_isspace] unfolding l_def
    by (metis list.distinct(1) list.sel(1))
  then have "rstrip l = d # rstrip ds" unfolding l using rstrip_keep [of d "[]" ds] by simp
  with n \<open>\<not> py_isspace d\<close> show ?thesis by simp
qed

lemma normalize_transcript_filter:
  "filter (\<lambda>c. \<not> py_isspace c) (normalize_transcript t) = filter (\<lambda>c. \<not> py_isspace c) t"
  by (simp add: normalize_transcript_eq py_strip_filter sub_space_before_punct_filter
        sub_whitespace_filter)

lemma normalize_transcript_blank:
  assumes "\<forall>c\<in>set t. py_isspace c"
  shows "normalize_transcript t = []"
proof (rule ccontr)
  assume ne: "normalize_transcript t \<noteq> []"
  then have "\<not> py_isspace (hd (normalize_transcript t))" by (rule normalize_transcript_hd)
  with ne have "filter (\<lambda>c. \<not> py_isspace c) (normalize_transcript t) \<noteq> []"
    by (cases "normalize_transcript t") auto
  moreover from assms have "filter (\<lambda>c. \<not> py_isspace c) t = []" by (induction t) auto
  ultimately show False by (simp add: normalize_transcript_filter)
qed

lemma normalize_transcript_between:
  assumes x: "\<not> py_isspace x" and y: "\<not> py_isspace y" and ws: "\<forall>c\<in>set ws. py_isspace c"
  shows "normalize_transcript (u @ x # ws @ y # v) =
         normalize_transcript (u @ [x]) @ (if ws = [] \<or> is_punct y then [] else '' '') @
         normalize_transcript (y # v)"
proof -
  define sp where "sp = (if ws = [] then [] else '' '')"
  define m where "m = (if is_punct y then [] else sp)"
  have sp: "\<forall>c\<in>set sp. py_isspace c" by (simp add: sp_def space_isspace)
  have A: "sub_whitespace (u @ x # ws @ y # v) = sub_whitespace u @ x # sp @ y # sub_whitespace v"
    using x y ws by (simp add: sub_whitespace_append sub_whitespace_all_space sp_def)
  have A1: "sub_whitespace (u @ [x]) = sub_whitespace u @ [x]"
    using x sub_whitespace_append [of x u "[]"] by simp
  have A2: "sub_whitespace (y # v) = y # sub_whitespace v"
    using y by simp
  obtain r where r: "sub_space_before_punct (sub_whitespace u @ [x]) = r @ [x]"
    using sub_space_before_punct_last [OF x] by blast
  have B: "sub_space_before_punct (sub_whitespace u @ x # sp @ y # sub_whitespace v) =
           r @ x # m @ y # sub_space_before_punct (sub_whitespace v)"
    using sub_space_before_punct_split [OF x, of "sub_whitespace u" "sp @ y # sub_whitespace v"]
      sub_space_before_punct_run [OF sp y, of "sub_whitespace v"] r
    by (simp add: m_def)
  have B2: "sub_space_before_punct (y # sub_whitespace v) = y # sub_space_before_punct (sub_whitespace v)"
    using y by (rule sbp_nonspace)
  have "normalize_transcript (u @ x # ws @ y # v) =
        py_strip (r @ x # m @ y # sub_space_before_punct (sub_whitespace v))"
    by (simp only: normalize_transcript_eq A B)
  also have "\<dots> = py_strip (r @ [x]) @ m @ py_strip (y # sub_space_before_punct (sub_whitespace v))"
    using x y by (rule py_strip_between)
  also have "py_strip (r @ [x]) = normalize_transcript (u @ [x])"
    by (simp only: normalize_transcript_eq A1 r)
  also have "py_strip (y # sub_space_before_punct (sub_whitespace v)) = normalize_transcript (y # v)"
    by (simp only: normalize_transcript_eq A2 B2)
  finally show ?thesis by (simp add: m_def sp_def)
qed

text \<open>
  Claim C8: \<^verbatim>\<open>normalize_transcript\<close> leaves the non-whitespace characters, their order and
  their casing unchanged; in its result every whitespace character is one space, and the
  character after it is neither whitespace nor one of \<^verbatim>\<open>. , ! ? ; :\<close>; the result neither
  starts nor ends with whitespace; empty or all-whitespace input gives the empty string.
  Between two non-whitespace characters \<open>x\<close> and \<open>y\<close> a run of whitespace becomes one
  space, or nothing when \<open>y\<close> is one of the six punctuation marks, and the text on either
  side is normalized on its own. In particular
  \<^verbatim>\<open>normalize_transcript("  Hello   world  .  ") = "Hello world."\<close>.
\<close>

theorem normalize_transcript_spec:
  "filter (\<lambda>c. \<not> py_isspace c) (normalize_transcript t) = filter (\<lambda>c. \<not> py_isspace c) t \<and>
   (normalize_transcript t = a @ c # d # b \<and> py_isspace c \<longrightarrow>
      c = CHR '' '' \<and> \<not> py_isspace d \<and> \<not> is_punct d) \<and>
   (normalize_transcript t \<noteq> [] \<longrightarrow>
      \<not> py_isspace (hd (normalize_transcript t)) \<and> \<not> py_isspace (last (normalize_transcript t))) \<and>
   ((\<forall>c\<in>set t'. py_isspace c) \<longrightarrow> normalize_transcript t' = []) \<and>
   (\<not> py_isspace x \<and> \<not> py_isspace y \<and> (\<forall>c\<in>set ws. py_isspace c) \<longrightarrow>
      normalize_transcript (u @ x # ws @ y # v) =
      normalize_transcript (u @ [x]) @ (if ws = [] \<or> is_punct y then [] else '' '') @
      normalize_transcript (y # v)) \<and>
   normalize_transcript ''  Hello   world  .  '' = ''Hello world.''"
proof -
  note ok = normalize_transcript_ws_ok [of t]
  have 1: "c = CHR '' '' \<and> \<not> py_isspace d \<and> \<not> is_punct d"
    if "normalize_transcript t = a @ c # d # b" "py_isspace c"
    using ws_ok_adjacent [of "\<lambda>d. \<not> py_isspace d \<and> \<not> is_punct d" False a c d b] ok that by simp
  have 2: "\<not> py_isspace (hd (normalize_transcript t)) \<and> \<not> py_isspace (last (normalize_transcript t))"
    if "normalize_transcript t \<noteq> []"
    using normalize_transcript_hd [OF that] ws_ok_last [OF ok that] by simp
  have 3: "normalize_transcript ''  Hello   world  .  '' = ''Hello world.''" by code_simp
  from 1 2 3 normalize_transcript_filter [of t] normalize_transcript_blank [of t']
    normalize_transcript_between [of x y ws u v]
  show ?thesis by blast
qed

theorem normalize_transcript_spec_witness:
  "normalize_transcript (''ab'' @ [CHR 0x09, CHR 0x0A] @ ''cd'') = ''ab cd'' \<and>
   normalize_transcript [CHR 0x09, CHR '' '', CHR 0x0A] = []"
proof -
  have h1: "normalize_transcript ''  Hello   world  .  '' = ''Hello'' @ CHR '' '' # CHR ''w'' # ''orld.''
       \<and> py_isspace CHR '' ''" by code_simp
  have h2: "normalize_transcript ''  Hello   world  .  '' \<noteq> []" by code_simp
  have h3: "\<forall>c\<in>set [CHR 0x09, CHR '' '', CHR 0x0A]. py_isspace c" by code_simp
  have h4: "\<not> py_isspace CHR ''b'' \<and> \<not> py_isspace CHR ''c'' \<and>
            (\<forall>c\<in>set [CHR 0x09, CHR 0x0A]. py_isspace c)"
    by code_simp
  have e1: "normalize_transcript ''ab'' = ''ab''" "normalize_transcript ''cd'' = ''cd''"
    "is_punct CHR ''c'' = False"
    by code_simp+
  from normalize_transcript_spec
         [of "''  Hello   world  .  ''" "''Hello''" "CHR '' ''" "CHR ''w''" "''orld.''"
             "[CHR 0x09, CHR '' '', CHR 0x0A]" "CHR ''b''" "CHR ''c''" "[CHR 0x09, CHR 0x0A]"
             "''a''" "''d''"]
    h1 h2 h3 h4 e1
  show ?thesis by simp
qed


section \<open>The filler detector\<close>

lemma foldl_extend:
  "foldl (\<lambda>detected pattern. detected @ f pattern) acc ps = acc @ concat (map f ps)"
  by (induction ps arbitrary: acc) simp_all

text \<open>
  Claim C5: on \<^verbatim>\<open>"Um, I think, you know, it's like really good."\<close> the function
  \<^verbatim>\<open>filler_count\<close> returns the count 3 and the occurrences \<^verbatim>\<open>"you know"\<close>, \<^verbatim>\<open>"um"\<close>,
  \<^verbatim>\<open>"like"\<close> in this order, the order of their patterns in the pattern list (the phrases
  first) and not the order of the text. For every text the occurrence list is the
  concatenation, pattern by pattern in list order, of the matches of each pattern.
\<close>

theorem filler_count_example:
  "filler_count (''Um, I think, you know, it'' @ [CHR 0x27] @ ''s like really good.'') =
     (3, [''you know'', ''um'', ''like'']) \<and>
   filler_count text =
     (if text = [] \<or> py_strip text = [] then (0, [])
      else let found = concat (map (\<lambda>pattern. re_findall pattern (sub_whitespace (py_strip (py_lower text))))
                                 filler_patterns)
           in (int (length found), found))"
proof -
  have "filler_count (''Um, I think, you know, it'' @ [CHR 0x27] @ ''s like really good.'') =
     (3, [''you know'', ''um'', ''like''])" by code_simp
  moreover have "filler_count text =
     (if text = [] \<or> py_strip text = [] then (0, [])
      else let found = concat (map (\<lambda>pattern. re_findall pattern (sub_whitespace (py_strip (py_lower text))))
                                 filler_patterns)
           in (int (length found), found))"
    by (simp add: filler_count_def Let_def foldl_extend)
  ultimately show ?thesis by blast
qed


section \<open>Totality of the core functions\<close>

lemmas total_eval =
  normalize_grammar_errors_def normalize_fillers_def normalize_wer_def fluency_penalty_def
  words_per_minute_def int_to_float_def
  py_bind_def float_truediv_def int_truediv_def Let_def scoring_constants

lemma filler_count_length: "fst (filler_count t) = int (length (snd (filler_count t)))"
  by (simp add: filler_count_def Let_def)

text \<open>
  Claim C9 as stated fails: the integer arguments are of the declared type \<^verbatim>\<open>int\<close> at every
  magnitude, and with \<open>2 ^ 1024\<close> fillers in one word \<^verbatim>\<open>normalize_fillers\<close> raises
  \<^verbatim>\<open>OverflowError\<close>. The same holds of \<^verbatim>\<open>normalize_grammar_errors\<close> and of
  \<^verbatim>\<open>words_per_minute\<close>.
\<close>

theorem normalize_fillers_overflow:
  "normalize_fillers (2 ^ 1024) 1 = Inl OverflowError"
  using not_in_double_range_2_1024 by (simp add: normalize_fillers_pos)

text \<open>
  Claim C9, amended: every core function returns a value and raises nothing on every input
  of its declared type, except where an integer count leaves the range of a double:
  \<^verbatim>\<open>normalize_grammar_errors\<close> and \<^verbatim>\<open>normalize_fillers\<close> raise exactly when the word count
  is positive and the quotient of the count by the word count is outside that range, and
  \<^verbatim>\<open>words_per_minute\<close> exactly when the duration is positive and the word count is
  non-negative and outside that range. \<^verbatim>\<open>normalize_wer\<close> and \<^verbatim>\<open>fluency_penalty\<close> return
  \<open>Inr\<close> for every argument, the absent value included. The zero word count and the
  zero duration are returned for: neither a division by zero nor a comparison with
  \<^verbatim>\<open>None\<close> is reached. The body of the other four functions (\<^verbatim>\<open>normalize_transcript\<close>,
  \<^verbatim>\<open>filler_count\<close>, \<^verbatim>\<open>calculate_final_score\<close>, \<^verbatim>\<open>generate_score_explanation\<close>) has no
  operation that raises, so their models are functions without an exception, defined on
  every input once the scans are shown to terminate; what is stated of them holds for
  every input: the transcript keeps its non-whitespace characters, the filler count is the
  length of the occurrence list, the score lies in \<open>[0, 100]\<close> and the explanation has
  its fixed format.
\<close>

theorem core_functions_total:
  "(\<exists>p. normalize_grammar_errors error_count word_count = Inr p) =
     (word_count \<le> 0 \<or> in_double_range (real_of_int error_count / real_of_int word_count)) \<and>
   (\<exists>p. normalize_fillers filler_cnt word_count' = Inr p) =
     (word_count' \<le> 0 \<or> in_double_range (real_of_int filler_cnt / real_of_int word_count')) \<and>
   (\<exists>p. normalize_wer wer = Inr p) \<and>
   (\<exists>p. fluency_penalty wpm = Inr p) \<and>
   (\<exists>r. words_per_minute wc duration_sec = Inr r) =
     (duration_sec \<le> 0 \<or> wc < 0 \<or> in_double_range (real_of_int wc)) \<and>
   normalize_grammar_errors error_count 0 = Inr 0 \<and>
   normalize_fillers filler_cnt 0 = Inr 0 \<and>
   normalize_wer None = Inr 0 \<and>
   fluency_penalty None = Inr 0 \<and>
   words_per_minute wc 0 = Inr None \<and>
   normalize_transcript [] = [] \<and>
   filler_count [] = (0, []) \<and>
   filter (\<lambda>c. \<not> py_isspace c) (normalize_transcript t) = filter (\<lambda>c. \<not> py_isspace c) t \<and>
   fst (filler_count t) = int (length (snd (filler_count t))) \<and>
   0 \<le> calculate_final_score g f w fl \<and> calculate_final_score g f w fl \<le> 100 \<and>
   (\<exists>rest. generate_score_explanation float_str g f w fl final =
            ''Score: '' @ float_str final @ ''/100 | Grammar: -'' @ rest)"
proof -
  have 1: "(\<exists>p. normalize_grammar_errors error_count word_count = Inr p) =
     (word_count \<le> 0 \<or> in_double_range (real_of_int error_count / real_of_int word_count))"
  proof (cases "0 < word_count")
    case True
    then show ?thesis by (simp add: normalize_grammar_errors_pos)
  next
    case False
    then show ?thesis by (simp add: normalize_grammar_errors_def)
  qed
  have 2: "(\<exists>p. normalize_fillers filler_cnt word_count' = Inr p) =
     (word_count' \<le> 0 \<or> in_double_range (real_of_int filler_cnt / real_of_int word_count'))"
  proof (cases "0 < word_count'")
    case True
    then show ?thesis by (simp add: normalize_fillers_pos)
  next
    case False
    then show ?thesis by (simp add: normalize_fillers_def)
  qed
  have 3: "\<exists>p. normalize_wer wer = Inr p"
    unfolding total_eval by (cases wer) simp_all
  have 4: "\<exists>p. fluency_penalty wpm = Inr p"
    unfolding total_eval by (cases wpm) simp_all
  have 5: "(\<exists>r. words_per_minute wc duration_sec = Inr r) =
     (duration_sec \<le> 0 \<or> wc < 0 \<or> in_double_range (real_of_int wc))"
    unfolding total_eval by auto
  have 6: "normalize_grammar_errors error_count 0 = Inr 0" "normalize_fillers filler_cnt 0 = Inr 0"
    "normalize_wer None = Inr 0" "fluency_penalty None = Inr 0" "words_per_minute wc 0 = Inr None"
    unfolding total_eval by simp_all
  have 7: "normalize_transcript [] = []" "filler_count [] = (0, [])"
    by (simp_all add: normalize_transcript_def filler_count_def)
  have 8: "\<exists>rest. generate_score_explanation float_str g f w fl final =
            ''Score: '' @ float_str final @ ''/100 | Grammar: -'' @ rest"
    unfolding generate_score_explanation_def Let_def by (intro exI) simp
  from 1 2 3 4 5 6 7 8 calculate_final_score_range [of g f w fl]
    normalize_transcript_filter [of t] filler_count_length [of t]
  show ?thesis by blast
qed

theorem core_functions_total_witness:
  "(\<exists>p. normalize_grammar_errors 5 100 = Inr p) \<and>
   (\<exists>p. normalize_fillers 7 100 = Inr p) \<and>
   (\<exists>r. words_per_minute 10 4 = Inr r)"
proof -
  have "in_double_range (real_of_int 5 / real_of_int 100)"
    "in_double_range (real_of_int 7 / real_of_int 100)"
    "in_double_range (real_of_int 10)"
    by (rule in_double_range_small, simp)+
  with core_functions_total [of 5 100 7 100 None None 10 4 "[]" 0 0 0 0 "\<lambda>x. []" 0]
  show ?thesis by simp
qed


section \<open>The grammar checker\<close>

lemma grammar_errors_check_raises:
  assumes "text \<noteq> []" "py_strip text \<noteq> []" "check lib tool text = Inl e"
  shows "grammar_errors lib encodable text language (Some tool) out =
           (if list_all encodable (9888 # code_points ('' Grammar check failed: '' @ py_str e))
            then (Inr (0, []), Some tool,
                  out @ [9888 # code_points ('' Grammar check failed: '' @ py_str e)])
            else (Inl UnicodeEncodeError, Some tool, out))"
  using assms
  by (simp add: grammar_errors_def get_language_tool_def py_bind_def py_print_def Let_def)

lemma grammar_errors_check_empty:
  assumes "text \<noteq> []" "py_strip text \<noteq> []" "check lib tool text = Inr []"
  shows "grammar_errors lib encodable text language (Some tool) out = (Inr (0, []), Some tool, out)"
  using assms
  by (simp add: grammar_errors_def get_language_tool_def py_bind_def Let_def)

text \<open>
  Claim C10: the handler of \<^verbatim>\<open>grammar_errors\<close> is written to turn every failure of the
  engine into \<open>(0, [])\<close>, the result for a text without errors. Before it returns it
  prints a line that starts with U+26A0. On a standard output encoded in ASCII that print
  raises \<^verbatim>\<open>UnicodeEncodeError\<close> inside the handler, and the caller receives the exception
  instead of \<open>(0, [])\<close>, whether the engine failed in the check or while it was loaded.
  On a standard output encoded in UTF-8 the same failures are turned into \<open>(0, [])\<close>,
  the result of the engine that finds nothing, and the line is written.
\<close>

theorem grammar_errors_handler_print_raises:
  "grammar_errors failing_lib ascii_encoding ''She dont like apples.'' ''en-US'' (Some ()) [] =
     (Inl UnicodeEncodeError, Some (), []) \<and>
   grammar_errors missing_lib ascii_encoding ''She dont like apples.'' ''en-US'' None [] =
     (Inl UnicodeEncodeError, None, []) \<and>
   grammar_errors failing_lib utf8_encoding ''She dont like apples.'' ''en-US'' (Some ()) [] =
     (Inr (0, []), Some (),
      [9888 # code_points '' Grammar check failed: connection lost'']) \<and>
   grammar_errors missing_lib utf8_encoding ''She dont like apples.'' ''en-US'' None [] =
     (Inr (0, []), None,
      [9888 # code_points '' Grammar check failed: No module named language_tool_python'']) \<and>
   grammar_errors quiet_lib utf8_encoding ''She dont like apples.'' ''en-US'' (Some ()) [] =
     (Inr (0, []), Some (), [])"
proof -
  have t: "''She dont like apples.'' \<noteq> []" "py_strip ''She dont like apples.'' \<noteq> []"
    by code_simp+
  have c: "check failing_lib () ''She dont like apples.'' = Inl (Exception ''connection lost'')"
    by (simp add: failing_lib_def)
  have q: "check quiet_lib () ''She dont like apples.'' = Inr []"
    by (simp add: quiet_lib_def)
  have a: "\<not> list_all ascii_encoding
             (9888 # code_points ('' Grammar check failed: '' @ py_str (Exception ''connection lost'')))"
    by (simp add: ascii_encoding_def)
  have u: "list_all utf8_encoding
             (9888 # code_points ('' Grammar check failed: '' @ py_str (Exception ''connection lost'')))"
    by (simp add: utf8_encoding_def code_points_def)
  have 1: "grammar_errors failing_lib ascii_encoding ''She dont like apples.'' ''en-US'' (Some ()) [] =
     (Inl UnicodeEncodeError, Some (), [])"
    unfolding grammar_errors_check_raises [OF t c] using a by simp
  have 3: "grammar_errors failing_lib utf8_encoding ''She dont like apples.'' ''en-US'' (Some ()) [] =
     (Inr (0, []), Some (),
      [9888 # code_points '' Grammar check failed: connection lost''])"
    unfolding grammar_errors_check_raises [OF t c] using u by simp
  have 2: "grammar_errors missing_lib ascii_encoding ''She dont like apples.'' ''en-US'' None [] =
     (Inl UnicodeEncodeError, None, [])"
    using t
    by (simp add: grammar_errors_def get_language_tool_def missing_lib_def py_bind_def
          py_print_def ascii_encoding_def Let_def)
  have 4: "grammar_errors missing_lib utf8_encoding ''She dont like apples.'' ''en-US'' None [] =
     (Inr (0, []), None,
      [9888 # code_points '' Grammar check failed: No module named language_tool_python''])"
    using t
    by (simp add: grammar_errors_def get_language_tool_def missing_lib_def py_bind_def
          py_print_def utf8_encoding_def code_points_def Let_def)
  have 5: "grammar_errors quiet_lib utf8_encoding ''She dont like apples.'' ''en-US'' (Some ()) [] =
     (Inr (0, []), Some (), [])"
    by (rule grammar_errors_check_empty [OF t q])
  from 1 2 3 4 5 show ?thesis by blast
qed

end
